theory Spec2Isabelle
  imports Main "HOL-Library.Sublist"
begin

section \<open>JavaScript values as the pages see them\<close>

text \<open>
  The admin pages receive the body of \<^verbatim>\<open>GET /sync/status\<close> as a parsed JSON value and
  read it with optional chaining. A value is one of JavaScript's: \<^verbatim>\<open>undefined\<close>,
  \<^verbatim>\<open>null\<close>, a boolean, a number (the counters and time values used here are
  integers), a string, an array or an object (its properties in order).
\<close>

datatype jsval =
    JUndefined
  | JNull
  | JBool bool
  | JNum int
  | JStr string
  | JArr "jsval list"
  | JObj "(string \<times> jsval) list"

text \<open>
  \<^verbatim>\<open>v?.name\<close>: \<^verbatim>\<open>undefined\<close> on \<^verbatim>\<open>null\<close> and \<^verbatim>\<open>undefined\<close>, the property's
  value on an object that has it, \<^verbatim>\<open>undefined\<close> otherwise (none of the names read by the
  pages is a property of a primitive or of an array). Every plain access \<^verbatim>\<open>v.name\<close> of the
  pages is guarded by a truthiness test of \<^verbatim>\<open>v\<close>, so it reads the same value.
\<close>

fun get :: "jsval \<Rightarrow> string \<Rightarrow> jsval" where
  "get (JObj kvs) name = (case map_of kvs name of None \<Rightarrow> JUndefined | Some v \<Rightarrow> v)"
| "get _ name = JUndefined"

text \<open>
  \<^verbatim>\<open>v?.[0]\<close>: the first element of an array, the first character of a string, the
  property named \<^verbatim>\<open>0\<close> of any other object, and \<^verbatim>\<open>undefined\<close> where there is none.
\<close>

fun first_item :: "jsval \<Rightarrow> jsval" where
  "first_item (JArr vs) = (case vs of [] \<Rightarrow> JUndefined | v # _ \<Rightarrow> v)"
| "first_item (JStr s) = (case s of [] \<Rightarrow> JUndefined | c # _ \<Rightarrow> JStr [c])"
| "first_item (JObj kvs) = get (JObj kvs) ''0''"
| "first_item _ = JUndefined"

text \<open>JavaScript's truthiness, as \<^verbatim>\<open>if (v)\<close>, \<^verbatim>\<open>!v\<close>, \<^verbatim>\<open>a || b\<close> and \<^verbatim>\<open>a && b\<close> test it.\<close>

fun truthy :: "jsval \<Rightarrow> bool" where
  "truthy JUndefined = False"
| "truthy JNull = False"
| "truthy (JBool b) = b"
| "truthy (JNum n) = (n \<noteq> 0)"
| "truthy (JStr s) = (s \<noteq> [])"
| "truthy (JArr vs) = True"
| "truthy (JObj kvs) = True"

definition js_or :: "jsval \<Rightarrow> jsval \<Rightarrow> jsval" where
  "js_or a b = (if truthy a then a else b)"

section \<open>Dates\<close>

text \<open>
  A \<^verbatim>\<open>Date\<close> holds a time value in milliseconds since the epoch, or is an Invalid Date.
  ECMAScript's TimeClip makes every time value beyond \<open>8.64 * 10^15\<close> ms invalid. The
  \<^verbatim>\<open>Date\<close> constructor's reading of a JavaScript value (its string parser above all) is
  a parameter \<open>mkDate\<close> of everything below.
\<close>

datatype jsdate = InvalidDate | Date int

definition TimeClip :: "int \<Rightarrow> jsdate" where
  "TimeClip t = (if \<bar>t\<bar> \<le> 8640000000000000 then Date t else InvalidDate)"

text \<open>
  \<^verbatim>\<open>addMinutes(date, amount)\<close> of date-fns: a new \<^verbatim>\<open>Date\<close> at
  \<^verbatim>\<open>date.getTime() + amount * 60000\<close>; an Invalid Date stays invalid.
\<close>

fun addMinutes :: "jsdate \<Rightarrow> int \<Rightarrow> jsdate" where
  "addMinutes InvalidDate amount = InvalidDate"
| "addMinutes (Date t) amount = TimeClip (t + amount * 60000)"

text \<open>
  \<^verbatim>\<open>a >= b\<close> on two dates compares their time values; with an Invalid Date (NaN) on
  either side it is false.
\<close>

fun date_ge :: "jsdate \<Rightarrow> jsdate \<Rightarrow> bool" where
  "date_ge (Date a) (Date b) = (b \<le> a)"
| "date_ge _ _ = False"

text \<open>
  Text a page shows: literal text, a value interpolated by a template, and the bullet
  that separates the segments of a line.
\<close>

datatype piece = Txt string | Val jsval | Bullet

section \<open>The next scheduled sync, on both pages\<close>

text \<open>
  \<^verbatim>\<open>getNextScheduledTime\<close> of the Sync Status page, over its state \<^verbatim>\<open>syncData\<close>;
  \<open>None\<close> is \<^verbatim>\<open>null\<close>.
\<close>

definition SyncStatusPage_getNextScheduledTime :: "(jsval \<Rightarrow> jsdate) \<Rightarrow> jsval \<Rightarrow> jsdate option" where
  "SyncStatusPage_getNextScheduledTime mkDate syncData =
     (if \<not> truthy (get (get syncData ''last_sync'') ''completed_at'') then None
      else let lastSync = mkDate (get (get syncData ''last_sync'') ''completed_at'')
           in Some (addMinutes lastSync 15))"

text \<open>The same function of the hall selection page, over its state \<^verbatim>\<open>syncStatus\<close>.\<close>

definition HallSelectionPage_getNextScheduledTime :: "(jsval \<Rightarrow> jsdate) \<Rightarrow> jsval \<Rightarrow> jsdate option" where
  "HallSelectionPage_getNextScheduledTime mkDate syncStatus =
     (if \<not> truthy (get (get syncStatus ''last_sync'') ''completed_at'') then None
      else let lastSync = mkDate (get (get syncStatus ''last_sync'') ''completed_at'')
           in Some (addMinutes lastSync 15))"

text \<open>
  What the pages show. \<^verbatim>\<open>format(date, 'h:mm a')\<close> of date-fns is the parameter \<open>fmt\<close> on
  a valid date and throws a RangeError on an Invalid Date (an object, so truthy).
\<close>

datatype js_error = RangeError

text \<open>
  The Sync Status page's card: \<^verbatim>\<open>nextScheduled ? format(...) : 'N/A'\<close>, with the line
  below it.
\<close>

fun SyncStatusPage_nextScheduledCard ::
  "(int \<Rightarrow> string) \<Rightarrow> jsdate option \<Rightarrow> js_error + (string \<times> string)" where
  "SyncStatusPage_nextScheduledCard fmt None = Inr (''N/A'', ''Waiting for first sync'')"
| "SyncStatusPage_nextScheduledCard fmt (Some InvalidDate) = Inl RangeError"
| "SyncStatusPage_nextScheduledCard fmt (Some (Date t)) = Inr (fmt t, ''Runs every 15 minutes'')"

text \<open>
  The hall selection page's status bar: \<^verbatim>\<open>nextScheduled && (<span>Next: ...</span>)\<close>;
  \<open>None\<close> is no element at all.
\<close>

fun HallSelectionPage_nextScheduledSpan ::
  "(int \<Rightarrow> string) \<Rightarrow> jsdate option \<Rightarrow> js_error + piece list option" where
  "HallSelectionPage_nextScheduledSpan fmt None = Inr None"
| "HallSelectionPage_nextScheduledSpan fmt (Some InvalidDate) = Inl RangeError"
| "HallSelectionPage_nextScheduledSpan fmt (Some (Date t)) =
     Inr (Some [Bullet, Txt '' Next: '', Txt (fmt t)])"

section \<open>The Sync Status page\<close>

subsection \<open>Recent logs\<close>





subsection \<open>The manual trigger and its recovery from a timeout\<close>

text \<open>
  The two requests of \<^verbatim>\<open>syncService.js\<close>: \<^verbatim>\<open>triggerManualSync\<close> sends
  \<^verbatim>\<open>POST /sync/google-sheets\<close>, \<^verbatim>\<open>fetchSyncStatus\<close> sends \<^verbatim>\<open>GET /sync/status\<close>.
  The page's state carries, beside its five React state variables, the requests it has
  sent and the timers it has waited for, oldest first.
\<close>

datatype request = PostSync | GetStatus

datatype event = Request request | Timer nat

record page =
  syncData :: jsval
  loading :: bool
  error :: "piece list option"
  syncing :: bool
  successMessage :: "piece list option"
  issued :: "event list"

text \<open>
  The network is a parameter: \<open>replies k\<close> is what the \<open>k\<close>-th \<^verbatim>\<open>GET /sync/status\<close> of
  the page resolves to (\<open>None\<close>: the request is rejected), and the outcome of the POST is
  an axios error or the response body.
\<close>

record axios_error =
  err_code :: "string option"
  err_message :: "string option"
  err_detail :: jsval

definition fetchSyncStatus :: "(nat \<Rightarrow> jsval option) \<Rightarrow> page \<Rightarrow> jsval option \<times> page" where
  "fetchSyncStatus replies s =
     (replies (count_list (issued s) (Request GetStatus)),
      s\<lparr>issued := issued s @ [Request GetStatus]\<rparr>)"

definition triggerManualSync :: "(axios_error + jsval) \<Rightarrow> page \<Rightarrow> (axios_error + jsval) \<times> page" where
  "triggerManualSync post s = (post, s\<lparr>issued := issued s @ [Request PostSync]\<rparr>)"

definition loadSyncStatus :: "(nat \<Rightarrow> jsval option) \<Rightarrow> bool \<Rightarrow> page \<Rightarrow> bool \<times> page" where
  "loadSyncStatus replies showSpinner s0 =
     (let s1 = (if showSpinner then s0\<lparr>loading := True\<rparr> else s0);
          s2 = (if showSpinner then s1\<lparr>error := None\<rparr> else s1);
          (ok, s4) =
            (case fetchSyncStatus replies s2 of
               (Some data, s3) \<Rightarrow>
                 (True, (if \<not> showSpinner then s3\<lparr>syncData := data, error := None\<rparr>
                         else s3\<lparr>syncData := data\<rparr>))
             | (None, s3) \<Rightarrow>
                 (False, s3\<lparr>error := Some [Txt ''Failed to load sync status. Please try again.'']\<rparr>))
      in (ok, if showSpinner then s4\<lparr>loading := False\<rparr> else s4))"

text \<open>\<^verbatim>\<open>s.includes(t)\<close> on strings.\<close>

fun str_includes :: "string \<Rightarrow> string \<Rightarrow> bool" where
  "str_includes [] t = (t = [])"
| "str_includes (c # s) t = (prefix t (c # s) \<or> str_includes s t)"

definition isTimeout :: "axios_error \<Rightarrow> bool" where
  "isTimeout err =
     (err_code err = Some ''ECONNABORTED''
      \<or> (case err_message err of None \<Rightarrow> False | Some m \<Rightarrow> str_includes m ''timeout''))"

definition maxPollAttempts :: nat where
  "maxPollAttempts = 6"

definition pollInterval :: nat where
  "pollInterval = 5000"

text \<open>
  What one poll of \<^verbatim>\<open>checkSyncCompletion\<close> makes of the status it fetched: the run that
  started at or after the trigger has succeeded, has failed, or there is nothing to report
  yet.
\<close>

datatype poll_outcome = Succeeded jsval | FailedRun jsval | KeepPolling

definition pollOutcome :: "(jsval \<Rightarrow> jsdate) \<Rightarrow> jsdate \<Rightarrow> jsval \<Rightarrow> poll_outcome" where
  "pollOutcome mkDate syncStartTime statusData =
     (let lastSync = get statusData ''last_sync'' in
      if truthy lastSync then
        (let lastSyncTime = mkDate (get lastSync ''started_at'') in
         if date_ge lastSyncTime syncStartTime then
           (if get lastSync ''status'' = JStr ''success'' then Succeeded lastSync
            else if get lastSync ''status'' = JStr ''failed'' then FailedRun lastSync
            else KeepPolling)
         else KeepPolling)
      else KeepPolling)"

text \<open>The two messages a finished poll composes from the run it found.\<close>

definition successText :: "jsval \<Rightarrow> piece list" where
  "successText lastSync =
     [Txt ''Sync completed successfully! Processed '', Val (get lastSync ''rows_processed''),
      Txt '' rows, created '', Val (get lastSync ''rows_created''), Txt '' issues.'']"

definition failureText :: "jsval \<Rightarrow> piece list" where
  "failureText lastSync =
     [Txt ''Sync failed: '',
      Val (js_or (first_item (get lastSync ''errors'')) (JStr ''Unknown error''))]"

text \<open>
  \<^verbatim>\<open>checkSyncCompletion\<close>, with the captured counter \<^verbatim>\<open>pollAttempts\<close> as an argument.
  It calls itself through \<^verbatim>\<open>setTimeout(checkSyncCompletion, pollInterval)\<close>; the boolean
  it returns is read by nobody.
\<close>

function checkSyncCompletion ::
  "(nat \<Rightarrow> jsval option) \<Rightarrow> (jsval \<Rightarrow> jsdate) \<Rightarrow> jsdate \<Rightarrow> nat \<Rightarrow> page \<Rightarrow> page" where
  "checkSyncCompletion replies mkDate syncStartTime pollAttempts s0 =
     (case fetchSyncStatus replies s0 of
        (None, s1) \<Rightarrow>
          snd (loadSyncStatus replies True
            (s1\<lparr>error := Some [Txt ''Sync request timed out. Unable to verify if sync completed. Please check the sync status below.'']\<rparr>))
      | (Some statusData, s1) \<Rightarrow>
          (case pollOutcome mkDate syncStartTime statusData of
             Succeeded lastSync \<Rightarrow>
               snd (loadSyncStatus replies True
                 (s1\<lparr>error := None, successMessage := Some (successText lastSync)\<rparr>))
           | FailedRun lastSync \<Rightarrow>
               snd (loadSyncStatus replies True
                 (s1\<lparr>error := Some (failureText lastSync)\<rparr>))
           | KeepPolling \<Rightarrow>
               (if Suc pollAttempts < maxPollAttempts then
                  checkSyncCompletion replies mkDate syncStartTime (Suc pollAttempts)
                    (s1\<lparr>issued := issued s1 @ [Timer pollInterval]\<rparr>)
                else
                  snd (loadSyncStatus replies True
                    (s1\<lparr>error := Some [Txt ''Sync request timed out and could not verify completion. Please check the sync status below to see if it completed.'']\<rparr>)))))"
  by pat_completeness auto
termination
  by (relation "measure (\<lambda>(replies, mkDate, syncStartTime, pollAttempts, s0). maxPollAttempts - pollAttempts)")
     (auto simp: maxPollAttempts_def)

declare checkSyncCompletion.simps [simp del]

text \<open>\<^verbatim>\<open>v.length\<close>: of an array or a string its length, else the property of that name.\<close>

fun js_length :: "jsval \<Rightarrow> jsval" where
  "js_length (JArr vs) = JNum (int (length vs))"
| "js_length (JStr s) = JNum (int (length s))"
| "js_length v = get v ''length''"

text \<open>
  \<^verbatim>\<open>handleManualSync\<close>. \<open>post\<close> is the outcome of the trigger request and \<open>now\<close> the clock
  when the handler starts (\<^verbatim>\<open>syncStartTime = new Date()\<close>). On a timeout the
  \<^verbatim>\<open>finally\<close> block runs before the first timer fires.
\<close>

definition handleManualSync ::
  "(axios_error + jsval) \<Rightarrow> (nat \<Rightarrow> jsval option) \<Rightarrow> (jsval \<Rightarrow> jsdate) \<Rightarrow> jsdate \<Rightarrow> page \<Rightarrow> page" where
  "handleManualSync post replies mkDate now s0 =
     (let s1 = s0\<lparr>syncing := True, error := None, successMessage := None\<rparr>;
          syncStartTime = now
      in case triggerManualSync post s1 of
           (Inr result, s2) \<Rightarrow>
             (let retry_summary = get result ''retry_summary'';
                  errors = get retry_summary ''errors'';
                  s3 = (if truthy retry_summary then
                          s2\<lparr>successMessage := Some
                            ([Txt ''Manual sync completed. Retried '', Val (get retry_summary ''entries_checked''),
                              Txt '' pending images, '', Val (get retry_summary ''images_uploaded''),
                              Txt '' succeeded'']
                             @ (if truthy errors \<and> truthy (js_length errors)
                                then [Txt ''. '', Val (js_length errors), Txt '' errors logged.'']
                                else [Txt ''.'']))\<rparr>
                        else s2\<lparr>successMessage := Some [Txt ''Manual sync completed successfully.'']\<rparr>);
                  s4 = snd (loadSyncStatus replies True s3)
              in s4\<lparr>syncing := False\<rparr>)
         | (Inl err, s2) \<Rightarrow>
             (if isTimeout err then
                (let s3 = s2\<lparr>error := Some [Txt ''Sync request timed out. Checking if sync completed...'']\<rparr>;
                     s4 = s3\<lparr>syncing := False\<rparr>
                 in checkSyncCompletion replies mkDate syncStartTime 0
                      (s4\<lparr>issued := issued s4 @ [Timer pollInterval]\<rparr>))
              else
                (s2\<lparr>error := Some
                      [Val (js_or (err_detail err) (JStr ''Failed to trigger sync. Please try again.''))]\<rparr>)
                  \<lparr>syncing := False\<rparr>))"

subsection \<open>The status cards\<close>










section \<open>The hall selection page\<close>








section \<open>The synchronization pipeline, from the specification\<close>

text \<open>Modelled from the spec: SourceRow, a raw row of the external source (the backend's
  sync task is not among the source files). It has a position marker, a source-native
  timestamp, the three required fields (submitter identity, location, category), the
  optional ones (description, name) and an optional media reference; a missing field is
  \<open>None\<close>.
\<close>

record source_row =
  row_position :: nat
  row_timestamp :: string
  row_submitter :: "string option"
  row_location :: "string option"
  row_category :: "string option"
  row_description :: "string option"
  row_name :: "string option"
  row_media :: "string option"

text \<open>Modelled from the spec: MediaAsset, which starts absent, becomes pending when the row
  is persisted before its upload has succeeded, and present with the stable URL.
\<close>

datatype media_asset = Absent | Pending | Present string

text \<open>Modelled from the spec: IssueRecord, the persisted entity, with its IngestKey, the row's
  fields, the media reference of the row and its MediaAsset.
\<close>

record issue_record =
  rec_key :: string
  rec_submitter :: string
  rec_location :: string
  rec_category :: string
  rec_description :: string
  rec_name :: string
  rec_reference :: "string option"
  rec_media :: media_asset

text \<open>Modelled from the spec: the state of a RetryTicket: retried automatically, or retained
  with a terminal reason (the maximum attempt count was reached, or the reference is no
  longer resolvable) and excluded from automatic retries.
\<close>

datatype ticket_state = Retrying | MaxAttemptsReached | Unresolvable

text \<open>Modelled from the spec: RetryTicket, one per IssueRecord whose media is pending, with the
  original media reference and an attempt counter.
\<close>

record retry_ticket =
  tk_key :: string
  tk_reference :: string
  tk_attempts :: nat
  tk_state :: ticket_state

text \<open>Modelled from the spec: the result of \<^verbatim>\<open>upload(reference)\<close>, a stable URL, a
  TransientError or a PermanentError.
\<close>

datatype upload_result = StableURL string | TransientError | PermanentError

text \<open>Modelled from the spec: the entries of a run's error list that the pipeline writes: a
  row skipped for a missing required field (by its position), and a media failure surfaced
  as permanent (by the record's key).
\<close>

datatype run_error = MissingRequiredField nat | PermanentMediaFailure string

text \<open>Modelled from the spec: the terminal status of a SyncRun.
\<close>

datatype run_status = Success | Failed

text \<open>Modelled from the spec: the counters, the error list and the status of a SyncRun; its
  id, trigger kind and timestamps are the orchestrator's and play no part in the pipeline.
  \<open>uploads_tried\<close> lists the references handed to the uploader during the run, in order.
\<close>

record sync_run =
  rows_checked :: nat
  rows_created :: nat
  rows_skipped :: nat
  media_uploaded :: nat
  media_retry_queued :: nat
  errors :: "run_error list"
  uploads_tried :: "string list"
  run_status :: run_status

text \<open>Modelled from the spec: the durable state of the engine: the IssueRecord store and the
  RetryLedger, both oldest first, and the high-water mark.
\<close>

record engine =
  records :: "issue_record list"
  ledger :: "retry_ticket list"
  mark :: nat

text \<open>Modelled from the spec: \<^verbatim>\<open>IngestKeyBuilder.key\<close>, derived from the submitter identity and
  the source timestamp and from nothing else of the row.
\<close>

definition ingest_key :: "source_row \<Rightarrow> string" where
  "ingest_key row = (case row_submitter row of None \<Rightarrow> [] | Some s \<Rightarrow> s) @ ''|'' @ row_timestamp row"

text \<open>Modelled from the spec: \<^verbatim>\<open>RowValidator.validate\<close>. A row without submitter identity,
  location or category is rejected; a missing description or name is defaulted. The
  candidate's media is pending when the row references a blob and absent otherwise.
\<close>

definition validate :: "source_row \<Rightarrow> run_error + issue_record" where
  "validate row =
     (case (row_submitter row, row_location row, row_category row) of
        (Some s, Some l, Some c) \<Rightarrow>
          Inr \<lparr>rec_key = ingest_key row, rec_submitter = s, rec_location = l, rec_category = c,
               rec_description = (case row_description row of None \<Rightarrow> [] | Some d \<Rightarrow> d),
               rec_name = (case row_name row of None \<Rightarrow> [] | Some n \<Rightarrow> n),
               rec_reference = row_media row,
               rec_media = (case row_media row of None \<Rightarrow> Absent | Some m \<Rightarrow> Pending)\<rparr>
      | _ \<Rightarrow> Inl (MissingRequiredField (row_position row)))"

text \<open>Modelled from the spec: \<^verbatim>\<open>RecordPersister.persist\<close>, an atomic insert if the key is
  absent; with the key present the row is skipped and nothing changes.
\<close>

definition persist :: "issue_record \<Rightarrow> issue_record list \<Rightarrow> bool \<times> issue_record list" where
  "persist candidate rs =
     (if rec_key candidate \<in> set (map rec_key rs) then (False, rs) else (True, rs @ [candidate]))"

text \<open>Modelled from the spec: a successful upload sets the MediaAsset of the record with the
  given key to present with the stable URL.
\<close>

definition set_present :: "string \<Rightarrow> string \<Rightarrow> issue_record list \<Rightarrow> issue_record list" where
  "set_present k url rs = map (\<lambda>r. if rec_key r = k then r\<lparr>rec_media := Present url\<rparr> else r) rs"

text \<open>Modelled from the spec: a failed upload increments the ticket's attempt counter; a
  PermanentError, or a counter that has reached the configured maximum, makes the ticket
  terminal.
\<close>

definition after_failure :: "nat \<Rightarrow> upload_result \<Rightarrow> retry_ticket \<Rightarrow> retry_ticket" where
  "after_failure max_attempts res t =
     t\<lparr>tk_attempts := Suc (tk_attempts t),
       tk_state := (if res = PermanentError then Unresolvable
                    else if max_attempts \<le> Suc (tk_attempts t) then MaxAttemptsReached
                    else Retrying)\<rparr>"

text \<open>Modelled from the spec: a terminal ticket is surfaced as a permanent error in the run's
  error list.
\<close>

definition surface :: "retry_ticket \<Rightarrow> sync_run \<Rightarrow> sync_run" where
  "surface t run =
     (if tk_state t = Retrying then run
      else run\<lparr>errors := errors run @ [PermanentMediaFailure (tk_key t)]\<rparr>)"

text \<open>Modelled from the spec: one ticket of the RetryLedger at the start of a run. A terminal
  ticket is retained and surfaced without an attempt. Otherwise the upload is attempted:
  on success the ticket is deleted and the MediaAsset set, on failure the ticket is
  retained with its counter incremented.
\<close>

definition retry_one ::
  "(string \<Rightarrow> upload_result) \<Rightarrow> nat \<Rightarrow> retry_ticket \<Rightarrow> issue_record list \<times> sync_run
     \<Rightarrow> retry_ticket option \<times> issue_record list \<times> sync_run" where
  "retry_one upload max_attempts t w =
     (case w of (rs, run) \<Rightarrow>
        if tk_state t \<noteq> Retrying then (Some t, rs, surface t run)
        else
          (let run1 = run\<lparr>uploads_tried := uploads_tried run @ [tk_reference t]\<rparr> in
           case upload (tk_reference t) of
             StableURL url \<Rightarrow>
               (None, set_present (tk_key t) url rs, run1\<lparr>media_uploaded := Suc (media_uploaded run1)\<rparr>)
           | res \<Rightarrow>
               (let t' = after_failure max_attempts res t in (Some t', rs, surface t' run1))))"

text \<open>Modelled from the spec: the orchestrator drains the outstanding tickets, oldest first,
  before it drives new rows.
\<close>

fun drain ::
  "(string \<Rightarrow> upload_result) \<Rightarrow> nat \<Rightarrow> retry_ticket list \<Rightarrow> issue_record list \<times> sync_run
     \<Rightarrow> retry_ticket list \<times> issue_record list \<times> sync_run" where
  "drain upload max_attempts [] w = ([], w)"
| "drain upload max_attempts (t # ts) w =
     (case retry_one upload max_attempts t w of
        (kept, w1) \<Rightarrow>
          (case drain upload max_attempts ts w1 of
             (ts', w2) \<Rightarrow> ((case kept of None \<Rightarrow> ts' | Some t' \<Rightarrow> t' # ts'), w2)))"

text \<open>Modelled from the spec: the best-effort upload of a row just persisted. On success the
  MediaAsset is set; on failure a RetryTicket is enqueued at the end of the ledger (counted
  as queued for retry when the failure is transient), and the row stays persisted.
\<close>

definition first_upload ::
  "(string \<Rightarrow> upload_result) \<Rightarrow> nat \<Rightarrow> issue_record \<Rightarrow> engine \<times> sync_run \<Rightarrow> engine \<times> sync_run" where
  "first_upload upload max_attempts candidate w =
     (case w of (e, run) \<Rightarrow>
        (case rec_reference candidate of
           None \<Rightarrow> (e, run)
         | Some reference \<Rightarrow>
             (let run1 = run\<lparr>uploads_tried := uploads_tried run @ [reference]\<rparr> in
              case upload reference of
                StableURL url \<Rightarrow>
                  (e\<lparr>records := set_present (rec_key candidate) url (records e)\<rparr>,
                   run1\<lparr>media_uploaded := Suc (media_uploaded run1)\<rparr>)
              | res \<Rightarrow>
                  (let t = after_failure max_attempts res
                             \<lparr>tk_key = rec_key candidate, tk_reference = reference,
                              tk_attempts = 0, tk_state = Retrying\<rparr>
                   in (e\<lparr>ledger := ledger e @ [t]\<rparr>,
                       surface t
                         (if res = TransientError
                          then run1\<lparr>media_retry_queued := Suc (media_retry_queued run1)\<rparr>
                          else run1))))))"

text \<open>Modelled from the spec: one row through RowValidator, the dedup check, RecordPersister and
  the media upload, in that order. A row rejected by validation is skipped, counted and
  logged; a row whose key exists is a silent skip; the high-water mark advances past the
  row in every case.
\<close>

definition ingest_row ::
  "(string \<Rightarrow> upload_result) \<Rightarrow> nat \<Rightarrow> source_row \<Rightarrow> engine \<times> sync_run \<Rightarrow> engine \<times> sync_run" where
  "ingest_row upload max_attempts row w =
     (case w of (e, run) \<Rightarrow>
        (let run1 = run\<lparr>rows_checked := Suc (rows_checked run)\<rparr>;
             e1 = e\<lparr>mark := max (mark e) (row_position row)\<rparr>
         in case validate row of
              Inl err \<Rightarrow>
                (e1, run1\<lparr>rows_skipped := Suc (rows_skipped run1), errors := errors run1 @ [err]\<rparr>)
            | Inr candidate \<Rightarrow>
                (case persist candidate (records e) of
                   (False, rs) \<Rightarrow> (e1, run1\<lparr>rows_skipped := Suc (rows_skipped run1)\<rparr>)
                 | (True, rs) \<Rightarrow>
                     first_upload upload max_attempts candidate
                       (e1\<lparr>records := rs\<rparr>, run1\<lparr>rows_created := Suc (rows_created run1)\<rparr>))))"

text \<open>Modelled from the spec: the SyncRun of a run that has just started.
\<close>

definition new_run :: sync_run where
  "new_run = \<lparr>rows_checked = 0, rows_created = 0, rows_skipped = 0, media_uploaded = 0,
               media_retry_queued = 0, errors = [], uploads_tried = [], run_status = Success\<rparr>"

text \<open>Modelled from the spec: a run of the pipeline over the rows that SourceReader returned:
  the RetryLedger is drained first, then the rows are driven in order. No upload result
  aborts it.
\<close>

definition run_pipeline ::
  "(string \<Rightarrow> upload_result) \<Rightarrow> nat \<Rightarrow> source_row list \<Rightarrow> engine \<Rightarrow> engine \<times> sync_run" where
  "run_pipeline upload max_attempts rows e =
     (case drain upload max_attempts (ledger e) (records e, new_run) of
        (ts, rs, run) \<Rightarrow>
          fold (ingest_row upload max_attempts) rows (e\<lparr>records := rs, ledger := ts\<rparr>, run))"

subsection \<open>Vocabulary of the statements\<close>

text \<open>The IngestKeys of the store, in order of creation.\<close>

definition keys :: "engine \<Rightarrow> string list" where
  "keys e = map rec_key (records e)"

text \<open>An IssueRecord with its MediaAsset put aside: what the row alone determines.\<close>

definition without_media :: "issue_record \<Rightarrow> issue_record" where
  "without_media r = r\<lparr>rec_media := Absent\<rparr>"

text \<open>A row that passes validation.\<close>

definition is_valid :: "source_row \<Rightarrow> bool" where
  "is_valid row = (case validate row of Inl err \<Rightarrow> False | Inr candidate \<Rightarrow> True)"

text \<open>A row that a run creates a record for: it is valid and its key is not among \<open>ks\<close>.\<close>

definition admitted :: "source_row \<Rightarrow> string list \<Rightarrow> bool" where
  "admitted row ks = (is_valid row \<and> ingest_key row \<notin> set ks)"

text \<open>The three row counters of a run.\<close>

definition row_counts :: "sync_run \<Rightarrow> nat \<times> nat \<times> nat" where
  "row_counts run = (rows_checked run, rows_created run, rows_skipped run)"

text \<open>A row with its position marker put aside: its content.\<close>

definition erase_position :: "source_row \<Rightarrow> source_row" where
  "erase_position row = row\<lparr>row_position := 0\<rparr>"

text \<open>The store holds a record with this key whose media is pending.\<close>

definition has_pending :: "string \<Rightarrow> engine \<Rightarrow> bool" where
  "has_pending k e = (\<exists>r \<in> set (records e). rec_key r = k \<and> rec_media r = Pending)"

text \<open>
  A well-formed engine: at most one record per IngestKey, at most one ticket per key, and
  every ticket belongs to a record whose media is pending. The engine before its first run
  is well-formed, and every run keeps it so.
\<close>

definition well_formed :: "engine \<Rightarrow> bool" where
  "well_formed e =
     (distinct (keys e) \<and> distinct (map tk_key (ledger e))
      \<and> (\<forall>t \<in> set (ledger e). has_pending (tk_key t) e))"




section \<open>Concrete inputs\<close>

text \<open>A page that has loaded nothing and sent nothing.\<close>

definition fresh_page :: page where
  "fresh_page = \<lparr>syncData = JNull, loading = False, error = None, syncing = False,
                   successMessage = None, issued = []\<rparr>"

text \<open>The error axios raises when the 120 s timeout of the trigger request expires.\<close>

definition timeout_error :: axios_error where
  "timeout_error = \<lparr>err_code = Some ''ECONNABORTED'',
                      err_message = Some ''timeout of 120000ms exceeded'',
                      err_detail = JUndefined\<rparr>"

text \<open>A backend whose status never shows a run: every status request answers the same.\<close>

definition no_run_yet :: "nat \<Rightarrow> jsval option" where
  "no_run_yet k =
     Some (JObj [(''last_sync'', JNull), (''last_failed_sync'', JNull), (''recent_syncs'', JArr [])])"

text \<open>Two readings of the \<^verbatim>\<open>Date\<close> constructor: one parses nothing, one a single timestamp.\<close>

definition unparsed :: "jsval \<Rightarrow> jsdate" where
  "unparsed v = InvalidDate"

definition iso_2024 :: "jsval \<Rightarrow> jsdate" where
  "iso_2024 v = (if v = JStr ''2024-05-01T10:00:30Z'' then Date 1714557630000 else InvalidDate)"

definition clock_text :: "int \<Rightarrow> string" where
  "clock_text t = (if t = 1714558530000 then ''10:15 AM'' else ''12:00 AM'')"

text \<open>
  A run summary with the trigger kind under the name \<open>field\<close>, the other fields as the
  pages read them.
\<close>

definition summary_with :: "string \<Rightarrow> string \<Rightarrow> jsval" where
  "summary_with field kind = JObj
     [(''id'', JNum 7), (field, JStr kind),
      (''started_at'', JStr ''2024-05-01T10:00:00Z''),
      (''completed_at'', JStr ''2024-05-01T10:00:30Z''),
      (''status'', JStr ''success''), (''rows_processed'', JNum 3), (''rows_created'', JNum 2),
      (''rows_skipped'', JNum 1), (''errors'', JArr [])]"





text \<open>\<open>k\<close> polls of the recovery path: a timer of \<^verbatim>\<open>pollInterval\<close>, then a status request.\<close>

definition polls :: "nat \<Rightarrow> event list" where
  "polls k = concat (replicate k [Timer pollInterval, Request GetStatus])"

text \<open>The body of a status response whose last run is \<open>run\<close>.\<close>

definition status_with :: "jsval \<Rightarrow> jsval" where
  "status_with run = JObj [(''last_sync'', run), (''last_failed_sync'', JNull), (''recent_syncs'', JArr [])]"

text \<open>The engine before its first run, three rows of the source (the third lacks its category)
  and two behaviours of the uploader.\<close>

definition empty_engine :: engine where
  "empty_engine = \<lparr>records = [], ledger = [], mark = 0\<rparr>"

definition row1 :: source_row where
  "row1 = \<lparr>row_position = 1, row_timestamp = ''2024-05-01 09:00:00'',
           row_submitter = Some ''ada@uni.edu'', row_location = Some ''Levi 12'',
           row_category = Some ''Plumbing'', row_description = Some ''Leaking tap'',
           row_name = Some ''Ada'', row_media = Some ''drive/1''\<rparr>"

definition row2 :: source_row where
  "row2 = \<lparr>row_position = 2, row_timestamp = ''2024-05-01 09:05:00'',
           row_submitter = Some ''bob@uni.edu'', row_location = Some ''Integrity 3'',
           row_category = Some ''Electrical'', row_description = None,
           row_name = None, row_media = Some ''drive/2''\<rparr>"

definition row3 :: source_row where
  "row3 = \<lparr>row_position = 3, row_timestamp = ''2024-05-01 09:07:00'',
           row_submitter = Some ''cy@uni.edu'', row_location = Some ''Levi 2'',
           row_category = None, row_description = Some ''Door'',
           row_name = None, row_media = None\<rparr>"

definition second_fails :: "string \<Rightarrow> upload_result" where
  "second_fails reference =
     (if reference = ''drive/2'' then TransientError else StableURL (''cdn/'' @ reference))"

definition all_reachable :: "string \<Rightarrow> upload_result" where
  "all_reachable reference = StableURL (''cdn/'' @ reference)"

text \<open>The first row read again at another position, its description edited.\<close>

definition row1_moved :: source_row where
  "row1_moved = row1\<lparr>row_position := 9, row_description := Some ''Edited later''\<rparr>"


section \<open>The requests of the manual trigger\<close>

lemma fetch_issued: "issued (snd (fetchSyncStatus replies s)) = issued s @ [Request GetStatus]"
  by (simp add: fetchSyncStatus_def)

lemma load_issued: "issued (snd (loadSyncStatus replies b s)) = issued s @ [Request GetStatus]"
  by (simp add: loadSyncStatus_def fetchSyncStatus_def Let_def split: option.splits prod.splits)

text \<open>
  From any count below the maximum, \<^verbatim>\<open>checkSyncCompletion\<close> sends a status request, then
  \<open>j\<close> further polls, then the status request of its closing \<^verbatim>\<open>loadSyncStatus(true)\<close>.
\<close>

lemma check_shape:
  "pollAttempts < maxPollAttempts \<Longrightarrow>
   \<exists>j. j < maxPollAttempts - pollAttempts \<and>
       issued (checkSyncCompletion replies mkDate t pollAttempts s) =
         issued s @ [Request GetStatus] @ polls j @ [Request GetStatus]"
proof (induction replies mkDate t pollAttempts s rule: checkSyncCompletion.induct)
  case (1 replies mkDate t p s0)
  obtain r s1 where f: "fetchSyncStatus replies s0 = (r, s1)"
    by (cases "fetchSyncStatus replies s0")
  have i1: "issued s1 = issued s0 @ [Request GetStatus]"
    using fetch_issued[of replies s0] f by simp
  show ?case
  proof (cases r)
    case None
    then have "issued (checkSyncCompletion replies mkDate t p s0) =
               issued s0 @ [Request GetStatus] @ polls 0 @ [Request GetStatus]"
      using f i1
      by (simp add: checkSyncCompletion.simps[of replies mkDate t p s0] load_issued polls_def)
    then show ?thesis using "1.prems" by (intro exI[of _ 0]) simp
  next
    case (Some statusData)
    show ?thesis
    proof (cases "pollOutcome mkDate t statusData = KeepPolling \<and> Suc p < maxPollAttempts")
      case False
      then have "issued (checkSyncCompletion replies mkDate t p s0) =
                 issued s0 @ [Request GetStatus] @ polls 0 @ [Request GetStatus]"
        using f i1 Some
        by (cases "pollOutcome mkDate t statusData")
           (simp_all add: checkSyncCompletion.simps[of replies mkDate t p s0] load_issued polls_def)
      then show ?thesis using "1.prems" by (intro exI[of _ 0]) simp
    next
      case True
      let ?s = "s1\<lparr>issued := issued s1 @ [Timer pollInterval]\<rparr>"
      from True have k: "pollOutcome mkDate t statusData = KeepPolling"
        and lt: "Suc p < maxPollAttempts" by simp_all
      from "1.IH"[OF f[symmetric] Some k lt lt] obtain j where
        j: "j < maxPollAttempts - Suc p" and
        e: "issued (checkSyncCompletion replies mkDate t (Suc p) ?s) =
            issued ?s @ [Request GetStatus] @ polls j @ [Request GetStatus]"
        by blast
      have "checkSyncCompletion replies mkDate t p s0 =
            checkSyncCompletion replies mkDate t (Suc p) ?s"
        using f Some k lt by (simp add: checkSyncCompletion.simps[of replies mkDate t p s0])
      then have "issued (checkSyncCompletion replies mkDate t p s0) =
                 issued s0 @ [Request GetStatus] @ polls (Suc j) @ [Request GetStatus]"
        using e i1 by (simp add: polls_def)
      moreover have "Suc j < maxPollAttempts - p" using j by simp
      ultimately show ?thesis by blast
    qed
  qed
qed

text \<open>While every status shows nothing to report, the polling runs to its last attempt.\<close>

lemma check_idle:
  "\<forall>k. \<exists>d. replies k = Some d \<and> pollOutcome mkDate t d = KeepPolling \<Longrightarrow>
   pollAttempts < maxPollAttempts \<Longrightarrow>
   issued (checkSyncCompletion replies mkDate t pollAttempts s) =
     issued s @ [Request GetStatus] @ polls (maxPollAttempts - Suc pollAttempts)
       @ [Request GetStatus]"
proof (induction replies mkDate t pollAttempts s rule: checkSyncCompletion.induct)
  case (1 replies mkDate t p s0)
  obtain r s1 where f: "fetchSyncStatus replies s0 = (r, s1)"
    by (cases "fetchSyncStatus replies s0")
  have i1: "issued s1 = issued s0 @ [Request GetStatus]"
    using fetch_issued[of replies s0] f by simp
  from "1.prems"(1) f obtain d where r: "r = Some d"
    and k: "pollOutcome mkDate t d = KeepPolling"
    by (metis fetchSyncStatus_def fst_conv)
  show ?case
  proof (cases "Suc p < maxPollAttempts")
    case True
    let ?s = "s1\<lparr>issued := issued s1 @ [Timer pollInterval]\<rparr>"
    have "checkSyncCompletion replies mkDate t p s0 =
          checkSyncCompletion replies mkDate t (Suc p) ?s"
      using f r k True by (simp add: checkSyncCompletion.simps[of replies mkDate t p s0])
    moreover have "maxPollAttempts - Suc p = Suc (maxPollAttempts - Suc (Suc p))"
      using True by simp
    ultimately show ?thesis
      using "1.IH"[OF f[symmetric] r k True "1.prems"(1) True] i1 by (simp add: polls_def)
  next
    case False
    then have "maxPollAttempts - Suc p = 0" by simp
    then show ?thesis
      using f r k False i1
      by (simp add: checkSyncCompletion.simps[of replies mkDate t p s0] load_issued polls_def)
  qed
qed

text \<open>
  Claim C7, as the code has it. When the trigger request of the Sync Status page fails with
  a timeout, the handler has sent exactly one \<^verbatim>\<open>POST /sync/google-sheets\<close>, and
  everything it sends afterwards is a \<^verbatim>\<open>GET /sync/status\<close>: between one and six polls,
  each after a timer of 5000 ms, and then one more status request, sent at once by the
  \<^verbatim>\<open>loadSyncStatus(true)\<close> that ends the recovery. This holds whatever the backend
  answers and however dates parse.
\<close>

theorem timeout_recovery_only_reads_status:
  assumes "isTimeout err"
  shows "\<exists>k. 1 \<le> k \<and> k \<le> 6 \<and>
           issued (handleManualSync (Inl err) replies mkDate now s) =
             issued s @ [Request PostSync]
               @ concat (replicate k [Timer 5000, Request GetStatus])
               @ [Request GetStatus]"
proof -
  let ?s = "s\<lparr>syncing := True, error := None, successMessage := None,
              issued := issued s @ [Request PostSync],
              error := Some [Txt ''Sync request timed out. Checking if sync completed...''],
              syncing := False,
              issued := (issued s @ [Request PostSync]) @ [Timer pollInterval]\<rparr>"
  have h: "handleManualSync (Inl err) replies mkDate now s =
           checkSyncCompletion replies mkDate now 0 ?s"
    using assms by (simp add: handleManualSync_def triggerManualSync_def)
  have "(0::nat) < maxPollAttempts" by (simp add: maxPollAttempts_def)
  from check_shape[OF this, of replies mkDate now ?s] obtain j where
    j: "j < maxPollAttempts - 0" and
    e: "issued (checkSyncCompletion replies mkDate now 0 ?s) =
        issued ?s @ [Request GetStatus] @ polls j @ [Request GetStatus]"
    by blast
  have "issued (handleManualSync (Inl err) replies mkDate now s) =
        issued s @ [Request PostSync]
          @ concat (replicate (Suc j) [Timer 5000, Request GetStatus]) @ [Request GetStatus]"
    using h e by (simp add: polls_def pollInterval_def)
  moreover have "1 \<le> Suc j \<and> Suc j \<le> 6" using j by (simp add: maxPollAttempts_def)
  ultimately show ?thesis by blast
qed

text \<open>The theorem at axios's own timeout error, on a fresh page.\<close>

theorem timeout_recovery_only_reads_status_witness:
  "isTimeout timeout_error \<and>
   (\<exists>k. 1 \<le> k \<and> k \<le> 6 \<and>
      issued (handleManualSync (Inl timeout_error) no_run_yet unparsed (Date 0) fresh_page) =
        issued fresh_page @ [Request PostSync]
          @ concat (replicate k [Timer 5000, Request GetStatus])
          @ [Request GetStatus])"
proof -
  have h: "isTimeout timeout_error" by (simp add: isTimeout_def timeout_error_def)
  show ?thesis using h timeout_recovery_only_reads_status[OF h] by blast
qed

text \<open>
  The bound of six does not hold of the status requests: when no poll finds the run, the
  recovery sends seven of them, the seventh without a timer before it.
\<close>

theorem timeout_recovery_seventh_status_request:
  "count_list (issued (handleManualSync (Inl timeout_error) no_run_yet unparsed (Date 0) fresh_page))
     (Request GetStatus) = 7"
proof -
  let ?s = "fresh_page\<lparr>syncing := True, error := None, successMessage := None,
              issued := issued fresh_page @ [Request PostSync],
              error := Some [Txt ''Sync request timed out. Checking if sync completed...''],
              syncing := False,
              issued := (issued fresh_page @ [Request PostSync]) @ [Timer pollInterval]\<rparr>"
  have h: "handleManualSync (Inl timeout_error) no_run_yet unparsed (Date 0) fresh_page =
           checkSyncCompletion no_run_yet unparsed (Date 0) 0 ?s"
    by (simp add: handleManualSync_def triggerManualSync_def isTimeout_def timeout_error_def)
  have idle: "\<forall>k. \<exists>d. no_run_yet k = Some d \<and> pollOutcome unparsed (Date 0) d = KeepPolling"
    by (simp add: no_run_yet_def pollOutcome_def)
  have "issued (checkSyncCompletion no_run_yet unparsed (Date 0) 0 ?s) =
        issued ?s @ [Request GetStatus] @ polls (maxPollAttempts - Suc 0) @ [Request GetStatus]"
    by (rule check_idle[OF idle]) (simp add: maxPollAttempts_def)
  then show ?thesis
    using h by (simp add: polls_def maxPollAttempts_def fresh_page_def numeral_eq_Suc)
qed

section \<open>The fields of a run summary that the pages read\<close>






section \<open>The next scheduled sync\<close>

text \<open>
  Claim C10, as the code has it. With \<open>c\<close> the \<^verbatim>\<open>completed_at\<close> of the status's
  \<^verbatim>\<open>last_sync\<close>, read with optional chaining: on both pages
  \<^verbatim>\<open>getNextScheduledTime\<close> is \<^verbatim>\<open>null\<close> exactly when \<open>c\<close> is falsy, in particular
  when there is no last sync or it has no \<^verbatim>\<open>completed_at\<close>; when \<open>c\<close> reads as the time
  value \<open>t\<close>, it is the date \<open>t + 15 * 60 * 1000\<close> ms (within the range of \<^verbatim>\<open>Date\<close>).
  The Sync Status page shows \<^verbatim>\<open>null\<close> as \<^verbatim>\<open>N/A\<close>; the hall selection page shows
  nothing for it.
\<close>

theorem next_scheduled_time_both_pages:
  assumes "c = get (get sd ''last_sync'') ''completed_at''"
  shows "(SyncStatusPage_getNextScheduledTime mkDate sd = None \<longleftrightarrow> \<not> truthy c)
       \<and> (HallSelectionPage_getNextScheduledTime mkDate sd = None \<longleftrightarrow> \<not> truthy c)
       \<and> (get sd ''last_sync'' = JNull \<or> c = JNull \<or> c = JUndefined \<longrightarrow>
            SyncStatusPage_getNextScheduledTime mkDate sd = None \<and>
            HallSelectionPage_getNextScheduledTime mkDate sd = None)
       \<and> (truthy c \<and> mkDate c = Date t \<and> \<bar>t + 15 * 60 * 1000\<bar> \<le> 8640000000000000 \<longrightarrow>
            SyncStatusPage_getNextScheduledTime mkDate sd = Some (Date (t + 15 * 60 * 1000)) \<and>
            HallSelectionPage_getNextScheduledTime mkDate sd = Some (Date (t + 15 * 60 * 1000)))
       \<and> SyncStatusPage_nextScheduledCard fmt None = Inr (''N/A'', ''Waiting for first sync'')
       \<and> HallSelectionPage_nextScheduledSpan fmt None = Inr None"
  using assms
  by (auto simp: SyncStatusPage_getNextScheduledTime_def HallSelectionPage_getNextScheduledTime_def
        TimeClip_def Let_def)

text \<open>
  The theorem at a status whose last run completed at 10:00:30 (the next is due at
  10:15:30), and at a status with no last run.
\<close>

theorem next_scheduled_time_both_pages_witness:
  "get (get (status_with (summary_with ''sync_type'' ''scheduled'')) ''last_sync'') ''completed_at''
     = JStr ''2024-05-01T10:00:30Z''
   \<and> iso_2024 (JStr ''2024-05-01T10:00:30Z'') = Date 1714557630000
   \<and> SyncStatusPage_getNextScheduledTime iso_2024 (status_with (summary_with ''sync_type'' ''scheduled''))
       = Some (Date 1714558530000)
   \<and> HallSelectionPage_getNextScheduledTime iso_2024 (status_with (summary_with ''sync_type'' ''scheduled''))
       = Some (Date 1714558530000)
   \<and> get (status_with JNull) ''last_sync'' = JNull
   \<and> SyncStatusPage_getNextScheduledTime iso_2024 (status_with JNull) = None
   \<and> HallSelectionPage_getNextScheduledTime iso_2024 (status_with JNull) = None"
proof -
  let ?sd = "status_with (summary_with ''sync_type'' ''scheduled'')"
  let ?c = "JStr ''2024-05-01T10:00:30Z''"
  have c: "?c = get (get ?sd ''last_sync'') ''completed_at''"
    by (simp add: status_with_def summary_with_def)
  have d: "iso_2024 ?c = Date 1714557630000" by (simp add: iso_2024_def)
  have n: "get (status_with JNull) ''last_sync'' = JNull" by (simp add: status_with_def)
  have r: "\<bar>(1714557630000::int) + 15 * 60 * 1000\<bar> \<le> 8640000000000000" by simp
  have t: "truthy ?c" by simp
  have e: "(1714557630000::int) + 15 * 60 * 1000 = 1714558530000" by simp
  from next_scheduled_time_both_pages[OF c, where mkDate = iso_2024 and t = 1714557630000] t d r e
  have 1: "SyncStatusPage_getNextScheduledTime iso_2024 ?sd = Some (Date 1714558530000) \<and>
        HallSelectionPage_getNextScheduledTime iso_2024 ?sd = Some (Date 1714558530000)"
    by simp
  from next_scheduled_time_both_pages[OF refl, where sd = "status_with JNull" and mkDate = iso_2024] n
  have 2: "SyncStatusPage_getNextScheduledTime iso_2024 (status_with JNull) = None \<and>
        HallSelectionPage_getNextScheduledTime iso_2024 (status_with JNull) = None"
    by blast
  show ?thesis using c d n 1 2 by simp
qed

text \<open>With no last run the hall selection page renders no element, not \<^verbatim>\<open>N/A\<close>.\<close>

theorem hall_page_omits_missing_next_time:
  "HallSelectionPage_nextScheduledSpan clock_text
     (HallSelectionPage_getNextScheduledTime iso_2024 (status_with JNull)) = Inr None"
  by (simp add: HallSelectionPage_getNextScheduledTime_def status_with_def)

section \<open>The pipeline: records and keys\<close>

lemma validate_key: "validate row = Inr c \<Longrightarrow> rec_key c = ingest_key row"
  by (auto simp: validate_def split: option.splits)

lemma set_present_key [simp]: "map rec_key (set_present k u rs) = map rec_key rs"
  by (induction rs) (auto simp: set_present_def)

lemma set_present_fields [simp]: "map without_media (set_present k u rs) = map without_media rs"
  by (induction rs) (auto simp: set_present_def without_media_def)

lemma surface_counts [simp]: "row_counts (surface t run) = row_counts run"
  by (simp add: surface_def row_counts_def)

lemma retry_one_frame:
  "retry_one up n t (rs, run) = (kept, rs', run') \<Longrightarrow>
   map rec_key rs' = map rec_key rs \<and> map without_media rs' = map without_media rs
   \<and> row_counts run' = row_counts run"
  by (auto simp: retry_one_def Let_def row_counts_def surface_def split: if_splits upload_result.splits)

lemma drain_frame:
  "drain up n ts (rs, run) = (ts', rs', run') \<Longrightarrow>
   map rec_key rs' = map rec_key rs \<and> map without_media rs' = map without_media rs
   \<and> row_counts run' = row_counts run"
proof (induction ts arbitrary: rs run ts' rs' run')
  case Nil
  then show ?case by simp
next
  case (Cons t ts)
  obtain kept rs1 run1 where a: "retry_one up n t (rs, run) = (kept, rs1, run1)"
    by (metis prod_cases3)
  obtain ts2 rs2 run2 where b: "drain up n ts (rs1, run1) = (ts2, rs2, run2)"
    by (metis prod_cases3)
  from Cons.prems a b have "rs' = rs2" "run' = run2" by (auto split: option.splits)
  with Cons.IH[OF b] retry_one_frame[OF a] show ?case by simp
qed

lemma first_upload_frame:
  "first_upload up n c (e, run) = (e', run') \<Longrightarrow>
   map rec_key (records e') = map rec_key (records e)
   \<and> map without_media (records e') = map without_media (records e)
   \<and> row_counts run' = row_counts run \<and> mark e' = mark e"
  by (auto simp: first_upload_def Let_def row_counts_def surface_def
           split: option.splits upload_result.splits if_splits)

lemma ingest_row_skip:
  assumes "\<not> admitted row (keys e)"
  shows "ingest_row up n row (e, run) =
           (e\<lparr>mark := max (mark e) (row_position row)\<rparr>,
            (case validate row of
               Inl err \<Rightarrow> run\<lparr>rows_checked := Suc (rows_checked run),
                                 rows_skipped := Suc (rows_skipped run),
                                 errors := errors run @ [err]\<rparr>
             | Inr c \<Rightarrow> run\<lparr>rows_checked := Suc (rows_checked run),
                              rows_skipped := Suc (rows_skipped run)\<rparr>))"
  using assms
  by (auto simp: ingest_row_def admitted_def is_valid_def keys_def persist_def Let_def
           validate_key split: sum.splits)

lemma ingest_row_admit:
  assumes "admitted row (keys e)" and "ingest_row up n row (e, run) = (e', run')"
  shows "\<exists>c. validate row = Inr c
           \<and> map without_media (records e') = map without_media (records e) @ [without_media c]
           \<and> keys e' = keys e @ [ingest_key row]
           \<and> row_counts run' = (Suc (rows_checked run), Suc (rows_created run), rows_skipped run)
           \<and> mark e' = max (mark e) (row_position row)"
proof -
  from assms(1) obtain c where c: "validate row = Inr c"
    by (auto simp: admitted_def is_valid_def split: sum.splits)
  have k: "rec_key c = ingest_key row" by (rule validate_key[OF c])
  with assms(1) have p: "persist c (records e) = (True, records e @ [c])"
    by (simp add: persist_def admitted_def keys_def)
  let ?e1 = "e\<lparr>mark := max (mark e) (row_position row), records := records e @ [c]\<rparr>"
  let ?r1 = "run\<lparr>rows_checked := Suc (rows_checked run), rows_created := Suc (rows_created run)\<rparr>"
  have "ingest_row up n row (e, run) = first_upload up n c (?e1, ?r1)"
    using c p by (simp add: ingest_row_def Let_def)
  with assms(2) have "first_upload up n c (?e1, ?r1) = (e', run')" by simp
  from first_upload_frame[OF this] c k show ?thesis
    by (simp add: keys_def row_counts_def)
qed


lemma ingest_row_keys:
  assumes "ingest_row up n row (e, run) = (e', run')"
  shows "keys e' = keys e @ (if admitted row (keys e) then [ingest_key row] else [])
       \<and> rows_created run' = rows_created run + (if admitted row (keys e) then 1 else 0)"
proof (cases "admitted row (keys e)")
  case True
  from ingest_row_admit[OF True assms] show ?thesis using True by (auto simp: row_counts_def)
next
  case False
  from ingest_row_skip[OF False, of up n run] assms show ?thesis using False
    by (auto simp: keys_def split: sum.splits)
qed

lemma fold_ingest_keys:
  "fold (ingest_row up n) rws (e, run) = (e', run') \<Longrightarrow>
   set (keys e') = set (keys e) \<union> ingest_key ` {r \<in> set rws. is_valid r}
   \<and> (distinct (keys e) \<longrightarrow> distinct (keys e'))
   \<and> rows_created run' + length (keys e) = rows_created run + length (keys e')"
proof (induction rws arbitrary: e run)
  case Nil
  then show ?case by simp
next
  case (Cons row rws)
  obtain e1 run1 where a: "ingest_row up n row (e, run) = (e1, run1)" by (metis surj_pair)
  from Cons.prems a have b: "fold (ingest_row up n) rws (e1, run1) = (e', run')" by simp
  note k = ingest_row_keys[OF a]
  note ih = Cons.IH[OF b]
  have s: "set (keys e1) = set (keys e) \<union> ingest_key ` {r \<in> {row}. is_valid r}"
    using k by (auto simp: admitted_def)
  have d: "distinct (keys e) \<longrightarrow> distinct (keys e1)"
    using k by (auto simp: admitted_def)
  have c: "rows_created run1 + length (keys e) = rows_created run + length (keys e1)"
    using k by auto
  from ih s d c show ?case by auto
qed


lemma run_pipeline_split:
  assumes "run_pipeline up n rws e = (e', run')"
  obtains ts rs run where "drain up n (ledger e) (records e, new_run) = (ts, rs, run)"
    and "fold (ingest_row up n) rws (e\<lparr>records := rs, ledger := ts\<rparr>, run) = (e', run')"
proof -
  obtain ts rs run where d: "drain up n (ledger e) (records e, new_run) = (ts, rs, run)"
    by (metis prod_cases3)
  with assms have "fold (ingest_row up n) rws (e\<lparr>records := rs, ledger := ts\<rparr>, run) = (e', run')"
    by (simp add: run_pipeline_def)
  with d that show thesis by blast
qed

lemma run_pipeline_keys:
  assumes "run_pipeline up n rws e = (e', run')"
  shows "set (keys e') = set (keys e) \<union> ingest_key ` {r \<in> set rws. is_valid r}"
    and "distinct (keys e) \<Longrightarrow> distinct (keys e')"
    and "rows_created run' + length (keys e) = length (keys e')"
proof -
  from assms obtain ts rs run where d: "drain up n (ledger e) (records e, new_run) = (ts, rs, run)"
    and f: "fold (ingest_row up n) rws (e\<lparr>records := rs, ledger := ts\<rparr>, run) = (e', run')"
    by (rule run_pipeline_split)
  from drain_frame[OF d] have k: "keys (e\<lparr>records := rs, ledger := ts\<rparr>) = keys e"
    and c: "rows_created run = 0" by (simp_all add: keys_def row_counts_def new_run_def)
  from fold_ingest_keys[OF f] k c
  show "set (keys e') = set (keys e) \<union> ingest_key ` {r \<in> set rws. is_valid r}"
    and "distinct (keys e) \<Longrightarrow> distinct (keys e')"
    and "rows_created run' + length (keys e) = length (keys e')"
    by simp_all
qed


text \<open>
  The example of the specification: of three new rows the first uploads its media, the
  second fails transiently and the third lacks a required field; a second run with no new
  rows and the media reachable uploads the queued one.
\<close>

lemmas engine_defs = run_pipeline_def ingest_row_def first_upload_def retry_one_def persist_def
  validate_def ingest_key_def set_present_def after_failure_def surface_def new_run_def
  empty_engine_def row1_def row2_def row3_def second_fails_def all_reachable_def
  Let_def

lemma scenario_first_run:
  "(case run_pipeline second_fails 3 [row1, row2, row3] empty_engine of (e, run) \<Rightarrow>
      (rows_checked run, rows_created run, rows_skipped run, media_uploaded run, media_retry_queued run,
       map tk_reference (ledger e), mark e)) = (3, 2, 1, 1, 1, [''drive/2''], 3)"
  by (simp add: engine_defs)

lemma scenario_second_run:
  "(case run_pipeline all_reachable 3 [] (fst (run_pipeline second_fails 3 [row1, row2, row3] empty_engine)) of (e, run) \<Rightarrow>
      (rows_checked run, rows_created run, rows_skipped run, media_uploaded run, media_retry_queued run,
       ledger e, map rec_media (records e))) = (0, 0, 0, 1, 0, [], [Present ''cdn/drive/1'', Present ''cdn/drive/2''])"
  by (simp add: engine_defs)

subsection \<open>The high-water mark\<close>





subsection \<open>Counting the skipped rows\<close>


subsection \<open>The drain only turns pending media into present media\<close>





subsection \<open>Every run keeps the engine well-formed\<close>






lemma after_failure_key [simp]: "tk_key (after_failure n res t) = tk_key t"
  by (simp add: after_failure_def)


lemma well_formed_mark [simp]: "well_formed (e\<lparr>mark := m\<rparr>) = well_formed e"
  by (simp add: well_formed_def keys_def has_pending_def)




subsection \<open>Running the same window again\<close>




section \<open>The pipeline: content, not position\<close>

lemma erase_valid [simp]: "is_valid (erase_position row) = is_valid row"
  by (simp add: is_valid_def validate_def erase_position_def split: option.splits)

lemma erase_key [simp]: "ingest_key (erase_position row) = ingest_key row"
  by (simp add: ingest_key_def erase_position_def)

lemma valid_keys_erased:
  "ingest_key ` {r \<in> set rws. is_valid r} = ingest_key ` {r \<in> erase_position ` set rws. is_valid r}"
  by (force simp: image_iff)

text \<open>
  Claim C4. Two rows with the same submitter identity and the same source timestamp have
  the same IngestKey, whatever their positions and other fields. Two windows with the same
  rows up to position, order and repetition leave the same set of keys in the store, each
  key once, and create the same number of records. After runs over two windows that
  overlap in any way the store holds each key once: the keys it had and those of the valid
  rows of either window.
\<close>

theorem dedup_by_content_not_position:
  "(row_submitter a = row_submitter b \<and> row_timestamp a = row_timestamp b \<longrightarrow> ingest_key a = ingest_key b)
   \<and> (distinct (keys e0)
        \<and> set (map erase_position rws') = set (map erase_position rws)
        \<and> run_pipeline up n rws e0 = (e1, run1)
        \<and> run_pipeline up' n rws' e0 = (e1', run1')
      \<longrightarrow> set (keys e1') = set (keys e1) \<and> distinct (keys e1') \<and> distinct (keys e1)
          \<and> rows_created run1' = rows_created run1)
   \<and> (distinct (keys e0)
        \<and> run_pipeline up n w1 e0 = (e1, run1)
        \<and> run_pipeline up' n w2 e1 = (e2, run2)
      \<longrightarrow> distinct (keys e2)
          \<and> set (keys e2) = set (keys e0) \<union> ingest_key ` {r \<in> set (w1 @ w2). is_valid r})"
proof (intro conjI impI)
  assume "row_submitter a = row_submitter b \<and> row_timestamp a = row_timestamp b"
  then show "ingest_key a = ingest_key b" by (simp add: ingest_key_def)
next
  assume h: "distinct (keys e0) \<and> set (map erase_position rws') = set (map erase_position rws)
        \<and> run_pipeline up n rws e0 = (e1, run1) \<and> run_pipeline up' n rws' e0 = (e1', run1')"
  then have r: "run_pipeline up n rws e0 = (e1, run1)" and r': "run_pipeline up' n rws' e0 = (e1', run1')"
    and d: "distinct (keys e0)" and p: "erase_position ` set rws' = erase_position ` set rws" by simp_all
  have "ingest_key ` {r \<in> set rws'. is_valid r} = ingest_key ` {r \<in> set rws. is_valid r}"
    using valid_keys_erased[of rws'] valid_keys_erased[of rws] p by simp
  then show s: "set (keys e1') = set (keys e1)"
    using run_pipeline_keys(1)[OF r] run_pipeline_keys(1)[OF r'] by simp
  show d1': "distinct (keys e1')" using run_pipeline_keys(2)[OF r'] d by simp
  show d1: "distinct (keys e1)" using run_pipeline_keys(2)[OF r] d by simp
  have "length (keys e1') = length (keys e1)"
    using s d1 d1' by (metis distinct_card)
  then show "rows_created run1' = rows_created run1"
    using run_pipeline_keys(3)[OF r] run_pipeline_keys(3)[OF r'] by simp
next
  assume h: "distinct (keys e0) \<and> run_pipeline up n w1 e0 = (e1, run1) \<and> run_pipeline up' n w2 e1 = (e2, run2)"
  then have r: "run_pipeline up n w1 e0 = (e1, run1)" and r': "run_pipeline up' n w2 e1 = (e2, run2)"
    and d: "distinct (keys e0)" by simp_all
  show "distinct (keys e2)"
    using run_pipeline_keys(2)[OF r'] run_pipeline_keys(2)[OF r] d by simp
  show "set (keys e2) = set (keys e0) \<union> ingest_key ` {r \<in> set (w1 @ w2). is_valid r}"
    using run_pipeline_keys(1)[OF r'] run_pipeline_keys(1)[OF r] by auto
qed

text \<open>
  The theorem on the example rows: read again in another order at shifted positions with
  the first row twice, and a second window that overlaps the first and holds the first
  row moved and edited.
\<close>

theorem dedup_by_content_not_position_witness:
  "row_submitter row1_moved = row_submitter row1 \<and> row_timestamp row1_moved = row_timestamp row1
   \<and> row_position row1_moved \<noteq> row_position row1
   \<and> ingest_key row1_moved = ingest_key row1
   \<and> set (keys (fst (run_pipeline all_reachable 3
              [row3\<lparr>row_position := 1\<rparr>, row1\<lparr>row_position := 2\<rparr>, row2\<lparr>row_position := 3\<rparr>,
               row1\<lparr>row_position := 4\<rparr>] empty_engine)))
     = set (keys (fst (run_pipeline second_fails 3 [row1, row2, row3] empty_engine)))
   \<and> distinct (keys (fst (run_pipeline all_reachable 3
              [row3\<lparr>row_position := 1\<rparr>, row1\<lparr>row_position := 2\<rparr>, row2\<lparr>row_position := 3\<rparr>,
               row1\<lparr>row_position := 4\<rparr>] empty_engine)))
   \<and> distinct (keys (fst (run_pipeline all_reachable 3 [row2, row3, row1_moved]
              (fst (run_pipeline second_fails 3 [row1, row2, row3] empty_engine)))))"
proof -
  let ?rws = "[row1, row2, row3]"
  let ?rws' = "[row3\<lparr>row_position := 1\<rparr>, row1\<lparr>row_position := 2\<rparr>, row2\<lparr>row_position := 3\<rparr>,
               row1\<lparr>row_position := 4\<rparr>]"
  have d: "distinct (keys empty_engine)" by (simp add: keys_def empty_engine_def)
  have a: "row_submitter row1_moved = row_submitter row1 \<and> row_timestamp row1_moved = row_timestamp row1"
    by (simp add: row1_moved_def)
  have n: "row_position row1_moved \<noteq> row_position row1" by (simp add: row1_moved_def row1_def)
  have p: "set (map erase_position ?rws') = set (map erase_position ?rws)"
    by (auto simp: erase_position_def)
  note t = dedup_by_content_not_position[where a = row1_moved and b = row1 and ?e0.0 = empty_engine
      and rws = ?rws and rws' = ?rws' and up = second_fails and up' = all_reachable and n = 3
      and ?e1.0 = "fst (run_pipeline second_fails 3 ?rws empty_engine)"
      and ?run1.0 = "snd (run_pipeline second_fails 3 ?rws empty_engine)"
      and e1' = "fst (run_pipeline all_reachable 3 ?rws' empty_engine)"
      and run1' = "snd (run_pipeline all_reachable 3 ?rws' empty_engine)"
      and ?w1.0 = ?rws and ?w2.0 = "[row2, row3, row1_moved]"
      and ?e2.0 = "fst (run_pipeline all_reachable 3 [row2, row3, row1_moved]
              (fst (run_pipeline second_fails 3 ?rws empty_engine)))"
      and ?run2.0 = "snd (run_pipeline all_reachable 3 [row2, row3, row1_moved]
              (fst (run_pipeline second_fails 3 ?rws empty_engine)))"]
  from t d a n p show ?thesis by simp
qed

end
